theory Spec2Isabelle
  imports Main "HOL-Library.Sublist"
begin

section \<open>Data model of syncall.py\<close>

text \<open>
  The script talks to three libraries: \<^verbatim>\<open>requests\<close> (HTTP), the Azure blob client and
  \<^verbatim>\<open>pandas\<close>. Their answers are inputs of the model (the record \<open>env\<close> below); what the
  script does with the answers is translated function by function.

  Values that \<^verbatim>\<open>response.json()\<close> hands to the script are Python values built from
  \<^verbatim>\<open>None\<close>, \<^verbatim>\<open>bool\<close>, \<^verbatim>\<open>int\<close>, \<^verbatim>\<open>str\<close>, \<^verbatim>\<open>list\<close> and \<^verbatim>\<open>dict\<close> (with string keys).
  JSON numbers with a fraction are left out of the model. A \<open>string\<close> is a list of
  characters, one \<open>char\<close> per character of the Python string.
\<close>

datatype json =
    JNull
  | JBool bool
  | JNum int
  | JStr string
  | JArr "json list"
  | JObj "(string \<times> json) list"

text \<open>
  The exceptions the script can end with. \<open>External\<close> is any exception raised inside a
  library call (a connection failure in \<^verbatim>\<open>requests.post\<close>, a failed download, a CSV that
  pandas cannot parse); the string names it.
\<close>

datatype exn = KeyError | TypeError | JSONDecodeError | External string

record request =
  req_url :: string
  req_headers :: "(string \<times> string) list"
  req_json :: json

text \<open>
  \<open>body_text\<close> is \<^verbatim>\<open>response.text\<close>; \<open>body_json\<close> is what \<^verbatim>\<open>response.json()\<close> returns,
  \<open>None\<close> when the body is not JSON (the call then raises).
\<close>

record response =
  status_code :: int
  body_text :: string
  body_json :: "json option"

text \<open>
  A cell of the data frame as \<^verbatim>\<open>iterrows()\<close> hands it to the script: an integer, a
  floating-point number, a string, a boolean or a missing value (NaN, itself a
  floating-point value).

  A finite floating-point number is given by its sign and its shortest decimal form, as
  Python's \<^verbatim>\<open>repr\<close> computes it: the digits, read as a natural number, and the number
  of digits before the decimal point. So 5.0 is \<open>CFloat False 5 1\<close>, 0.25 is
  \<open>CFloat False 25 0\<close>, 1.5 is \<open>CFloat False 15 1\<close>, 1e16 is \<open>CFloat False 1 17\<close> and 0.0 is
  \<open>CFloat False 0 1\<close>. \<open>CInf\<close> is an infinity with its sign.
\<close>

datatype cell =
    CInt int
  | CFloat bool nat int
  | CInf bool
  | CStr string
  | CBool bool
  | CNaN

record frame =
  columns :: "string list"
  rows :: "cell list list"

text \<open>
  The outside world of one run: the answer of \<^verbatim>\<open>requests.post\<close> to each request, the
  outcome of downloading the blob and parsing it with \<^verbatim>\<open>pd.read_csv\<close>, and whether the
  interpreter is CPython 3.12 or later (there a slice is hashable, and subscripting a
  dict with a slice raises KeyError where older interpreters raise TypeError).
\<close>

record env =
  requests_post :: "request \<Rightarrow> exn + response"
  read_blob_csv :: "string \<Rightarrow> string \<Rightarrow> string \<Rightarrow> exn + frame"
  py312 :: bool

text \<open>The command line: the six required flags.\<close>

record args =
  args_search_service_name :: string
  args_index_name :: string
  args_api_key :: string
  args_connection_string :: string
  args_container_name :: string
  args_file_name :: string

text \<open>
  What a run does that can be observed: the lines it prints and the HTTP requests it
  sends, in order. A printed f-string is kept as its pieces: the literal text and the
  values formatted into it.
\<close>

datatype part = Lit string | Fmt json

datatype event = Print "part list" | Post request

subsection \<open>Python dictionaries\<close>

text \<open>
  A dict keeps its keys in insertion order, so it is an association list. Two keys are
  the same key when they are equal in Python: \<^verbatim>\<open>True == 1\<close> and \<^verbatim>\<open>False == 0\<close>, and
  otherwise equal values only. Lists and dicts cannot be keys (TypeError: unhashable).
\<close>

fun key_norm :: "json \<Rightarrow> json" where
  "key_norm (JBool b) = JNum (if b then 1 else 0)"
| "key_norm j = j"

definition key_eq :: "json \<Rightarrow> json \<Rightarrow> bool" where
  "key_eq a b = (key_norm a = key_norm b)"

fun hashable :: "json \<Rightarrow> bool" where
  "hashable (JArr xs) = False"
| "hashable (JObj kvs) = False"
| "hashable j = True"

fun dict_get :: "(json \<times> 'v) list \<Rightarrow> json \<Rightarrow> 'v option" where
  "dict_get [] k = None"
| "dict_get ((k', v) # d) k = (if key_eq k' k then Some v else dict_get d k)"

text \<open>\<^verbatim>\<open>d[k] = v\<close>: a key already present keeps its place (and the key object first
  inserted) and takes the new value; a new key goes to the end.\<close>

fun dict_set :: "(json \<times> 'v) list \<Rightarrow> json \<Rightarrow> 'v \<Rightarrow> (json \<times> 'v) list" where
  "dict_set [] k v = [(k, v)]"
| "dict_set ((k', v') # d) k v =
     (if key_eq k' k then (k', v) # d else (k', v') # dict_set d k v)"

definition dict_keys :: "(json \<times> 'v) list \<Rightarrow> json list" where
  "dict_keys d = map fst d"

definition dict_contains :: "(json \<times> 'v) list \<Rightarrow> json \<Rightarrow> bool" where
  "dict_contains d k = (dict_get d k \<noteq> None)"

subsection \<open>Subscripting and iterating a parsed JSON value\<close>

text \<open>\<^verbatim>\<open>obj["name"]\<close>: a dict without the key raises KeyError; a list, a string, a number,
  a boolean or None subscripted with a string raises TypeError.\<close>

fun getitem :: "json \<Rightarrow> string \<Rightarrow> exn + json" where
  "getitem (JObj kvs) k = (case map_of kvs k of None \<Rightarrow> Inl KeyError | Some v \<Rightarrow> Inr v)"
| "getitem j k = Inl TypeError"

text \<open>\<^verbatim>\<open>for doc in obj\<close>: a list gives its elements, a dict its keys, a string its
  characters; None, booleans and numbers are not iterable.\<close>

fun iter_json :: "json \<Rightarrow> exn + json list" where
  "iter_json (JArr xs) = Inr xs"
| "iter_json (JObj kvs) = Inr (map (\<lambda>kv. JStr (fst kv)) kvs)"
| "iter_json (JStr s) = Inr (map (\<lambda>c. JStr [c]) s)"
| "iter_json j = Inl TypeError"

section \<open>Step 1: search\_index\<close>

text \<open>
  The dict comprehension \<^verbatim>\<open>{doc["id"]: doc["content"] for doc in ...}\<close>, one document
  at a time: both subscripts are evaluated, then the pair is stored, which hashes the key.
\<close>

fun index_comprehension :: "json list \<Rightarrow> (json \<times> json) list \<Rightarrow> exn + (json \<times> json) list" where
  "index_comprehension [] acc = Inr acc"
| "index_comprehension (doc # docs) acc =
     (case getitem doc ''id'' of
        Inl e \<Rightarrow> Inl e
      | Inr k \<Rightarrow>
          (case getitem doc ''content'' of
             Inl e \<Rightarrow> Inl e
           | Inr v \<Rightarrow>
               if hashable k then index_comprehension docs (dict_set acc k v)
               else Inl TypeError))"

definition search_request :: "string \<Rightarrow> string \<Rightarrow> string \<Rightarrow> request" where
  "search_request base_url index_name api_key =
     \<lparr> req_url = base_url @ ''/indexes/'' @ index_name @ ''/docs/search?api-version=2024-07-01'',
       req_headers = [(''Content-Type'', ''application/json''), (''api-key'', api_key)],
       req_json = JObj [(''search'', JStr ''*''), (''select'', JStr ''id, content'')] \<rparr>"

definition search_index ::
  "env \<Rightarrow> string \<Rightarrow> string \<Rightarrow> string \<Rightarrow> event list \<times> (exn + (json \<times> json) list)" where
  "search_index world base_url index_name api_key =
     (let req = search_request base_url index_name api_key in
      case requests_post world req of
        Inl e \<Rightarrow> ([Post req], Inl e)
      | Inr response \<Rightarrow>
          if status_code response = 200 then
            (case body_json response of
               None \<Rightarrow> ([Post req], Inl JSONDecodeError)
             | Some search_results \<Rightarrow>
                 ([Post req],
                  case getitem search_results ''value'' of
                    Inl e \<Rightarrow> Inl e
                  | Inr docs_value \<Rightarrow>
                      (case iter_json docs_value of
                         Inl e \<Rightarrow> Inl e
                       | Inr docs \<Rightarrow> index_comprehension docs [])))
          else
            ([Post req,
              Print [Lit ''Error during search: '', Fmt (JNum (status_code response)),
                     Lit '', '', Fmt (JStr (body_text response))]],
             Inr []))"

section \<open>Step 2: load\_csv\_from\_blob\<close>

text \<open>
  \<^verbatim>\<open>f'{row["id"]}'\<close>: the text Python formats a cell to. An integer is written in decimal
  with a minus sign when negative.
\<close>

definition digit_char :: "nat \<Rightarrow> char" where
  "digit_char d = ''0123456789'' ! d"

fun str_nat :: "nat \<Rightarrow> string" where
  "str_nat n = (if n < 10 then [digit_char n] else str_nat (n div 10) @ [digit_char (n mod 10)])"

definition str_int :: "int \<Rightarrow> string" where
  "str_int i = (if i < 0 then CHR ''-'' # str_nat (nat (- i)) else str_nat (nat i))"

text \<open>
  A floating-point number is written as \<^verbatim>\<open>repr\<close> writes it. With \<open>decpt\<close> digits before
  the decimal point, the exponent form is used when \<open>decpt > 16\<close> or \<open>decpt < -3\<close>: the first
  digit, the other digits after a point if there are any, and the exponent \<open>decpt - 1\<close> with
  its sign and at least two digits (\<^verbatim>\<open>1e+16\<close>, \<^verbatim>\<open>1.5e-05\<close>). Otherwise the digits are written
  with the point in its place, zeros filling up to the point, and \<^verbatim>\<open>.0\<close> at the end of a
  whole number (\<^verbatim>\<open>5.0\<close>, \<^verbatim>\<open>0.25\<close>, \<^verbatim>\<open>100.0\<close>, \<^verbatim>\<open>0.001\<close>).
\<close>

definition exponent_text :: "int \<Rightarrow> string" where
  "exponent_text e =
     (if e < 0 then CHR ''-'' else CHR ''+'') #
     (if \<bar>e\<bar> < 10 then CHR ''0'' # str_nat (nat \<bar>e\<bar>) else str_nat (nat \<bar>e\<bar>))"

definition float_digits_text :: "nat \<Rightarrow> int \<Rightarrow> string" where
  "float_digits_text digits decpt =
     (let ds = str_nat digits; n = int (length ds) in
      if decpt > 16 \<or> decpt < - 3 then
        (case ds of
           [] \<Rightarrow> []
         | d # more_digits \<Rightarrow>
             d # (if more_digits = [] then [] else CHR ''.'' # more_digits)
               @ CHR ''e'' # exponent_text (decpt - 1))
      else if decpt \<le> 0 then ''0.'' @ replicate (nat (- decpt)) (CHR ''0'') @ ds
      else if n \<le> decpt then ds @ replicate (nat (decpt - n)) (CHR ''0'') @ ''.0''
      else take (nat decpt) ds @ CHR ''.'' # drop (nat decpt) ds)"

definition str_float :: "bool \<Rightarrow> nat \<Rightarrow> int \<Rightarrow> string" where
  "str_float negative digits decpt =
     (if negative then CHR ''-'' # float_digits_text digits decpt
      else float_digits_text digits decpt)"

fun format_cell :: "cell \<Rightarrow> string" where
  "format_cell (CInt i) = str_int i"
| "format_cell (CFloat negative digits decpt) = str_float negative digits decpt"
| "format_cell (CInf negative) = (if negative then ''-inf'' else ''inf'')"
| "format_cell (CStr s) = s"
| "format_cell (CBool b) = (if b then ''True'' else ''False'')"
| "format_cell CNaN = ''nan''"

text \<open>\<^verbatim>\<open>row["name"]\<close> on a row of the frame: the cell under that column, KeyError when the
  frame has no such column. (pandas renames repeated header names, so a column name
  stands for one column.)\<close>

definition row_get :: "string list \<Rightarrow> cell list \<Rightarrow> string \<Rightarrow> exn + cell" where
  "row_get cols row name =
     (case map_of (zip cols row) name of None \<Rightarrow> Inl KeyError | Some c \<Rightarrow> Inr c)"

text \<open>The dict comprehension over \<^verbatim>\<open>df.iterrows()\<close>, one row at a time.\<close>

fun csv_comprehension ::
  "string list \<Rightarrow> cell list list \<Rightarrow> (json \<times> cell) list \<Rightarrow> exn + (json \<times> cell) list" where
  "csv_comprehension cols [] acc = Inr acc"
| "csv_comprehension cols (row # rest) acc =
     (case row_get cols row ''id'' of
        Inl e \<Rightarrow> Inl e
      | Inr i \<Rightarrow>
          (case row_get cols row ''content'' of
             Inl e \<Rightarrow> Inl e
           | Inr c \<Rightarrow> csv_comprehension cols rest (dict_set acc (JStr (format_cell i)) c)))"

definition load_csv_from_blob ::
  "env \<Rightarrow> string \<Rightarrow> string \<Rightarrow> string \<Rightarrow> exn + (json \<times> cell) list" where
  "load_csv_from_blob world connection_string container_name blob_name =
     (case read_blob_csv world connection_string container_name blob_name of
        Inl e \<Rightarrow> Inl e
      | Inr df \<Rightarrow> csv_comprehension (columns df) (rows df) [])"

section \<open>Step 3: delete\_documents\_from\_index\<close>

text \<open>\<^verbatim>\<open>content[:30]\<close>: the first 30 characters of a string, the first 30 elements of a
  list; a dict raises (which exception depends on the interpreter), anything else
  raises TypeError.\<close>

fun slice30 :: "bool \<Rightarrow> json \<Rightarrow> exn + json" where
  "slice30 v (JStr s) = Inr (JStr (take 30 s))"
| "slice30 v (JArr xs) = Inr (JArr (take 30 xs))"
| "slice30 v (JObj kvs) = Inl (if v then KeyError else TypeError)"
| "slice30 v j = Inl TypeError"

text \<open>\<^verbatim>\<open>index_data.get(doc_id, "Content not available")\<close>, for a hashable \<open>doc_id\<close>.\<close>

definition content_of :: "(json \<times> json) list \<Rightarrow> json \<Rightarrow> json" where
  "content_of index_data doc_id =
     (case dict_get index_data doc_id of
        None \<Rightarrow> JStr ''Content not available''
      | Some content \<Rightarrow> content)"

text \<open>The logging loop. The lookup hashes \<open>doc_id\<close> first; the line is printed after the
  slice has been taken.\<close>

fun log_candidates ::
  "bool \<Rightarrow> (json \<times> json) list \<Rightarrow> json list \<Rightarrow> event list \<times> (exn + unit)" where
  "log_candidates v index_data [] = ([], Inr ())"
| "log_candidates v index_data (doc_id # rest) =
     (if \<not> hashable doc_id then ([], Inl TypeError)
      else
        case slice30 v (content_of index_data doc_id) of
          Inl e \<Rightarrow> ([], Inl e)
        | Inr preview \<Rightarrow>
            (case log_candidates v index_data rest of
               (evs, r) \<Rightarrow>
                 (Print [Lit ''ID: '', Fmt doc_id, Lit '', '', Fmt preview, Lit ''...''] # evs, r)))"

definition delete_action :: "json \<Rightarrow> json" where
  "delete_action doc_id = JObj [(''@search.action'', JStr ''delete''), (''id'', doc_id)]"

definition delete_request :: "string \<Rightarrow> string \<Rightarrow> string \<Rightarrow> json list \<Rightarrow> request" where
  "delete_request base_url index_name api_key doc_ids_to_delete =
     \<lparr> req_url = base_url @ ''/indexes/'' @ index_name @ ''/docs/index?api-version=2024-07-01'',
       req_headers = [(''Content-Type'', ''application/json''), (''api-key'', api_key)],
       req_json = JObj [(''value'', JArr (map delete_action doc_ids_to_delete))] \<rparr>"

definition delete_documents_from_index ::
  "env \<Rightarrow> string \<Rightarrow> string \<Rightarrow> string \<Rightarrow> json list \<Rightarrow> (json \<times> json) list
     \<Rightarrow> event list \<times> (exn + unit)" where
  "delete_documents_from_index world base_url index_name api_key doc_ids_to_delete index_data =
     (let req = delete_request base_url index_name api_key doc_ids_to_delete;
          header = Print [Lit ''Deleting the following documents:''] in
      case log_candidates (py312 world) index_data doc_ids_to_delete of
        (evs, Inl e) \<Rightarrow> (header # evs, Inl e)
      | (evs, Inr u) \<Rightarrow>
          (case requests_post world req of
             Inl e \<Rightarrow> (header # evs @ [Post req], Inl e)
           | Inr response \<Rightarrow>
               if status_code response = 200 then
                 (header # evs @
                    [Post req,
                     Print [Lit ''Successfully deleted '',
                            Fmt (JNum (int (length doc_ids_to_delete))), Lit '' documents.'']],
                  Inr ())
               else
                 (header # evs @
                    [Post req,
                     Print [Lit ''Error during deletion: '', Fmt (JNum (status_code response)),
                            Lit '', '', Fmt (JStr (body_text response))]],
                  Inr ())))"

section \<open>The main function\<close>

text \<open>\<^verbatim>\<open>[doc_id for doc_id in index_data if doc_id not in csv_data]\<close>, one key of the index
  snapshot at a time.\<close>

fun missing_ids :: "(json \<times> 'a) list \<Rightarrow> (json \<times> 'b) list \<Rightarrow> json list" where
  "missing_ids [] csv_data = []"
| "missing_ids ((doc_id, content) # rest) csv_data =
     (if \<not> dict_contains csv_data doc_id then doc_id # missing_ids rest csv_data
      else missing_ids rest csv_data)"

definition no_op_message :: event where
  "no_op_message =
     Print [Lit ''No documents to delete. All records in the CSV are present in the index.'']"

definition service_url :: "args \<Rightarrow> string" where
  "service_url a = ''https://'' @ args_search_service_name a @ ''.search.windows.net''"

definition main :: "env \<Rightarrow> args \<Rightarrow> event list \<times> (exn + unit)" where
  "main world a =
     (let base_url = service_url a in
      case search_index world base_url (args_index_name a) (args_api_key a) of
        (evs, Inl e) \<Rightarrow> (evs, Inl e)
      | (evs, Inr index_data) \<Rightarrow>
          (case load_csv_from_blob world (args_connection_string a) (args_container_name a)
                  (args_file_name a) of
             Inl e \<Rightarrow> (evs, Inl e)
           | Inr csv_data \<Rightarrow>
               (let ids = missing_ids index_data csv_data in
                if ids \<noteq> [] then
                  (case delete_documents_from_index world base_url (args_index_name a)
                          (args_api_key a) ids index_data of
                     (evs', r) \<Rightarrow> (evs @ evs', r))
                else (evs @ [no_op_message], Inr ()))))"

text \<open>The delete requests among the events of a run: the POSTs to the \<^verbatim>\<open>docs/index\<close>
  endpoint.\<close>

definition is_delete_post :: "event \<Rightarrow> bool" where
  "is_delete_post ev =
     (case ev of
        Post req \<Rightarrow> suffix ''/docs/index?api-version=2024-07-01'' (req_url req)
      | Print ps \<Rightarrow> False)"

definition delete_posts :: "event list \<Rightarrow> event list" where
  "delete_posts evs = filter is_delete_post evs"

section \<open>Notions used in the statements\<close>

text \<open>The content of the last pair whose id is the given key (equal as Python keys are).\<close>

fun last_content :: "(json \<times> 'v) list \<Rightarrow> json \<Rightarrow> 'v option" where
  "last_content [] k = None"
| "last_content ((k', v) # ps) k =
     (case last_content ps k of
        Some w \<Rightarrow> Some w
      | None \<Rightarrow> if key_eq k' k then Some v else None)"

text \<open>No two entries of a snapshot have the same key.\<close>

definition single_entry_per_id :: "(json \<times> 'v) list \<Rightarrow> bool" where
  "single_entry_per_id d = distinct (map key_norm (dict_keys d))"

text \<open>A result document the comprehension accepts: an object with an \<open>id\<close> that can be
  hashed and a \<open>content\<close>; and the pair it is stored as.\<close>

definition well_formed_doc :: "json \<Rightarrow> bool" where
  "well_formed_doc doc =
     (case getitem doc ''id'' of
        Inl e \<Rightarrow> False
      | Inr i \<Rightarrow> hashable i \<and> (case getitem doc ''content'' of Inl e \<Rightarrow> False | Inr c \<Rightarrow> True))"

definition doc_pair :: "json \<Rightarrow> json \<times> json" where
  "doc_pair doc =
     (case getitem doc ''id'' of
        Inr i \<Rightarrow> (case getitem doc ''content'' of Inr c \<Rightarrow> (i, c) | Inl e \<Rightarrow> (i, JNull))
      | Inl e \<Rightarrow> (JNull, JNull))"

text \<open>A row with a cell under \<open>id\<close> and under \<open>content\<close>, and the pair it is stored as.\<close>

definition row_ok :: "string list \<Rightarrow> cell list \<Rightarrow> bool" where
  "row_ok cols row =
     (case row_get cols row ''id'' of
        Inl e \<Rightarrow> False
      | Inr i \<Rightarrow> (case row_get cols row ''content'' of Inl e \<Rightarrow> False | Inr c \<Rightarrow> True))"

definition row_pair :: "string list \<Rightarrow> cell list \<Rightarrow> json \<times> cell" where
  "row_pair cols row =
     (case row_get cols row ''id'' of
        Inr i \<Rightarrow> (case row_get cols row ''content'' of
                    Inr c \<Rightarrow> (JStr (format_cell i), c)
                  | Inl e \<Rightarrow> (JStr (format_cell i), CNaN))
      | Inl e \<Rightarrow> (JNull, CNaN))"

text \<open>
  The frames pandas can hand over. \<^verbatim>\<open>pd.read_csv\<close> gives every column one type: integers
  only; floating-point numbers (a numeric column with a fraction or a blank somewhere:
  the blank is NaN); booleans only; or objects (strings, or booleans, with NaN for a
  blank). \<^verbatim>\<open>iterrows()\<close> then makes one series of each row, with one type for the whole
  row: in a frame whose columns are all integer or floating-point columns, with at least
  one of the latter, the integers reach the script as floating-point numbers, so that no
  integer column is left. In every other frame the cells keep their types.
\<close>

fun float_like :: "cell \<Rightarrow> bool" where
  "float_like (CFloat negative digits decpt) = True"
| "float_like (CInf negative) = True"
| "float_like CNaN = True"
| "float_like c = False"

fun int_cell :: "cell \<Rightarrow> bool" where
  "int_cell (CInt i) = True"
| "int_cell c = False"

fun bool_cell :: "cell \<Rightarrow> bool" where
  "bool_cell (CBool b) = True"
| "bool_cell c = False"

fun object_cell :: "cell \<Rightarrow> bool" where
  "object_cell (CStr s) = True"
| "object_cell (CBool b) = True"
| "object_cell CNaN = True"
| "object_cell c = False"

definition column_cells :: "cell list list \<Rightarrow> nat \<Rightarrow> cell list" where
  "column_cells rs j = map (\<lambda>row. row ! j) rs"

definition pandas_yields :: "frame \<Rightarrow> bool" where
  "pandas_yields df =
     (let n = length (columns df);
          cols = map (column_cells (rows df)) [0..<n] in
      distinct (columns df)
      \<and> list_all (\<lambda>row. length row = n) (rows df)
      \<and> list_all (\<lambda>cs. list_all int_cell cs \<or> list_all float_like cs
                        \<or> list_all bool_cell cs \<or> list_all object_cell cs) cols
      \<and> (if list_all (\<lambda>cs. list_all int_cell cs \<or> list_all float_like cs) cols
         then list_all (list_all int_cell) cols \<or> list_all (list_all float_like) cols
         else True))"

text \<open>Contents that \<^verbatim>\<open>content[:30]\<close> accepts (strings and lists), the preview it gives,
  and contents that cannot be subscripted at all (None, booleans, numbers).\<close>

fun sliceable :: "json \<Rightarrow> bool" where
  "sliceable (JStr s) = True"
| "sliceable (JArr xs) = True"
| "sliceable j = False"

fun not_subscriptable :: "json \<Rightarrow> bool" where
  "not_subscriptable JNull = True"
| "not_subscriptable (JBool b) = True"
| "not_subscriptable (JNum n) = True"
| "not_subscriptable j = False"

fun preview_of :: "json \<Rightarrow> json" where
  "preview_of (JStr s) = JStr (take 30 s)"
| "preview_of (JArr xs) = JArr (take 30 xs)"
| "preview_of j = j"

text \<open>The line the logging loop prints for a candidate, the candidates it can print a
  line for, and the line printed before the loop.\<close>

definition candidate_line :: "(json \<times> json) list \<Rightarrow> json \<Rightarrow> event" where
  "candidate_line index_data doc_id =
     Print [Lit ''ID: '', Fmt doc_id, Lit '', '', Fmt (preview_of (content_of index_data doc_id)),
            Lit ''...'']"

definition loggable :: "(json \<times> json) list \<Rightarrow> json \<Rightarrow> bool" where
  "loggable index_data doc_id = (hashable doc_id \<and> sliceable (content_of index_data doc_id))"

definition deleting_header :: event where
  "deleting_header = Print [Lit ''Deleting the following documents:'']"

subsection \<open>Concrete runs\<close>

text \<open>A world that gives one fixed answer to the search request, one to the blob download
  and one to the delete request; and a command line.\<close>

definition fixed_world :: "exn + response \<Rightarrow> exn + frame \<Rightarrow> exn + response \<Rightarrow> env" where
  "fixed_world search_reply csv_reply delete_reply =
     \<lparr> requests_post = (\<lambda>req. if is_delete_post (Post req) then delete_reply else search_reply),
       read_blob_csv = (\<lambda>connection_string container_name blob_name. csv_reply),
       py312 = False \<rparr>"

definition ok_response :: "json \<Rightarrow> response" where
  "ok_response j = \<lparr> status_code = 200, body_text = [], body_json = Some j \<rparr>"

definition error_response :: "int \<Rightarrow> string \<Rightarrow> response" where
  "error_response code msg = \<lparr> status_code = code, body_text = msg, body_json = None \<rparr>"

definition document :: "json \<Rightarrow> json \<Rightarrow> json" where
  "document i c = JObj [(''id'', i), (''content'', c)]"

definition search_body :: "json list \<Rightarrow> json" where
  "search_body docs = JObj [(''value'', JArr docs)]"

definition id_content_frame :: "cell list list \<Rightarrow> frame" where
  "id_content_frame rs = \<lparr> columns = [''id'', ''content''], rows = rs \<rparr>"

text \<open>A frame whose header is \<open>name,content\<close>: it has no \<open>id\<close> column.\<close>

definition frame_without_id :: "cell list list \<Rightarrow> frame" where
  "frame_without_id rs = \<lparr> columns = [''name'', ''content''], rows = rs \<rparr>"

definition example_args :: args where
  "example_args =
     \<lparr> args_search_service_name = ''svc'', args_index_name = ''docs'', args_api_key = ''k'',
       args_connection_string = ''conn'', args_container_name = ''box'',
       args_file_name = ''ref.csv'' \<rparr>"

section \<open>Basic facts\<close>

lemma suffix_app_short: "length p \<le> length q \<Longrightarrow> suffix p (xs @ q) = suffix p q"
  by (auto simp: suffix_append)

lemma not_delete_search [simp]: "\<not> is_delete_post (Post (search_request b i k))"
  by (simp add: is_delete_post_def search_request_def suffix_app_short suffix_Cons)

lemma is_delete_delete [simp]: "is_delete_post (Post (delete_request b i k ids))"
  by (simp add: is_delete_post_def delete_request_def suffix_def)

lemma not_delete_print [simp]: "\<not> is_delete_post (Print ps)"
  by (simp add: is_delete_post_def)

lemma key_eq_refl [simp]: "key_eq k k"
  by (simp add: key_eq_def)

lemma key_eq_sym: "key_eq a b = key_eq b a"
  by (auto simp: key_eq_def)

lemma key_eq_trans: "key_eq a b \<Longrightarrow> key_eq b c \<Longrightarrow> key_eq a c"
  by (simp add: key_eq_def)

lemma dict_contains_iff: "dict_contains d k \<longleftrightarrow> (\<exists>k' \<in> set (dict_keys d). key_eq k' k)"
  by (induction d) (auto simp: dict_contains_def dict_keys_def)

lemma missing_ids_filter:
  "missing_ids index_data csv_data =
     filter (\<lambda>k. \<not> dict_contains csv_data k) (dict_keys index_data)"
  by (induction index_data csv_data rule: missing_ids.induct) (auto simp: dict_keys_def)

lemma search_index_no_delete: "delete_posts (fst (search_index world b i k)) = []"
  by (simp add: search_index_def delete_posts_def Let_def split: sum.splits option.splits)

lemma search_index_non200:
  assumes "requests_post world (search_request b i k) = Inr response"
    and "status_code response \<noteq> 200"
  shows "search_index world b i k =
     ([Post (search_request b i k),
       Print [Lit ''Error during search: '', Fmt (JNum (status_code response)),
              Lit '', '', Fmt (JStr (body_text response))]], Inr [])"
  using assms by (simp add: search_index_def Let_def)

lemma fixed_world_search [simp]:
  "requests_post (fixed_world sr cr dr) (search_request b i k) = sr"
  by (simp add: fixed_world_def)

lemma fixed_world_delete [simp]:
  "requests_post (fixed_world sr cr dr) (delete_request b i k ids) = dr"
  by (simp add: fixed_world_def)

lemma fixed_world_csv [simp]: "read_blob_csv (fixed_world sr cr dr) c n f = cr"
  by (simp add: fixed_world_def)

lemma fixed_world_py312 [simp]: "py312 (fixed_world sr cr dr) = False"
  by (simp add: fixed_world_def)

section \<open>The deletion set\<close>

text \<open>
  Claim C1. The deletion set computed in \<open>main\<close> is the list of keys of the index
  snapshot that are not keys of the reference snapshot, in the order of the index
  snapshot: it is the key list of the index snapshot filtered by absence from the
  reference snapshot, hence a subsequence of that key list, and an id is in it exactly when
  it is a key of the index snapshot and no key of the reference snapshot equals it.
\<close>

theorem missing_ids_is_index_minus_reference:
  "missing_ids index_data csv_data =
     filter (\<lambda>k. \<not> dict_contains csv_data k) (dict_keys index_data)
   \<and> subseq (missing_ids index_data csv_data) (dict_keys index_data)
   \<and> (\<forall>k. k \<in> set (missing_ids index_data csv_data) \<longleftrightarrow>
          k \<in> set (dict_keys index_data) \<and> (\<forall>k' \<in> set (dict_keys csv_data). \<not> key_eq k' k))"
  by (auto simp: missing_ids_filter dict_contains_iff)

text \<open>The example of the specification: index \<open>{A: "x", B: "y"}\<close> against reference
  \<open>{A: "x"}\<close> gives \<open>["B"]\<close>.\<close>

theorem missing_ids_example:
  "missing_ids [(JStr ''A'', JStr ''x''), (JStr ''B'', JStr ''y'')] [(JStr ''A'', CStr ''x'')]
     = [JStr ''B'']"
proof -
  have "missing_ids [(JStr ''A'', JStr ''x''), (JStr ''B'', JStr ''y'')] [(JStr ''A'', CStr ''x'')]
      = filter (\<lambda>k. \<not> dict_contains [(JStr ''A'', CStr ''x'')] k)
          (dict_keys [(JStr ''A'', JStr ''x''), (JStr ''B'', JStr ''y'')])"
    using missing_ids_is_index_minus_reference by blast
  also have "\<dots> = [JStr ''B'']"
    by (simp add: dict_keys_def dict_contains_def key_eq_def)
  finally show ?thesis .
qed

section \<open>A search that answers with an error status\<close>



section \<open>Nothing to delete\<close>

text \<open>
  Claim C5. When both snapshots were built and every key of the index snapshot is a key of
  the reference snapshot, the deletion set is empty, the run prints the no-op message
  after the events of the search and ends normally, and no delete request is sent.
\<close>

theorem identical_snapshots_no_delete:
  assumes "search_index world (service_url a) (args_index_name a) (args_api_key a)
             = (evs, Inr index_data)"
    and "load_csv_from_blob world (args_connection_string a) (args_container_name a)
             (args_file_name a) = Inr csv_data"
    and "\<forall>k \<in> set (dict_keys index_data). dict_contains csv_data k"
  shows "missing_ids index_data csv_data = []
     \<and> main world a = (evs @ [no_op_message], Inr ())
     \<and> delete_posts (fst (main world a)) = []"
proof -
  have e: "missing_ids index_data csv_data = []"
    using assms(3) by (simp add: missing_ids_filter)
  have m: "main world a = (evs @ [no_op_message], Inr ())"
    by (simp add: main_def assms(1,2) e)
  have "delete_posts evs = []"
    using search_index_no_delete [of world "service_url a" "args_index_name a" "args_api_key a"]
    by (simp add: assms(1))
  then have "delete_posts (fst (main world a)) = []"
    by (simp add: m delete_posts_def no_op_message_def)
  with e m show ?thesis by blast
qed

text \<open>Index \<open>{A: "x", B: "y"}\<close> and a CSV with the rows \<open>B\<close> and \<open>A\<close>: one search request,
  the no-op message, a normal end.\<close>

theorem identical_snapshots_example:
  "main (fixed_world
           (Inr (ok_response (search_body
              [document (JStr ''A'') (JStr ''x''), document (JStr ''B'') (JStr ''y'')])))
           (Inr (id_content_frame [[CStr ''B'', CStr ''y''], [CStr ''A'', CStr ''x'']]))
           (Inl (External ''unused'')))
        example_args =
     ([Post (search_request (service_url example_args) ''docs'' ''k''), no_op_message], Inr ())"
proof -
  let ?w = "fixed_world
           (Inr (ok_response (search_body
              [document (JStr ''A'') (JStr ''x''), document (JStr ''B'') (JStr ''y'')])))
           (Inr (id_content_frame [[CStr ''B'', CStr ''y''], [CStr ''A'', CStr ''x'']]))
           (Inl (External ''unused''))"
  let ?idx = "[(JStr ''A'', JStr ''x''), (JStr ''B'', JStr ''y'')]"
  let ?csv = "[(JStr ''B'', CStr ''y''), (JStr ''A'', CStr ''x'')]"
  have 1: "search_index ?w (service_url example_args) (args_index_name example_args)
             (args_api_key example_args)
           = ([Post (search_request (service_url example_args) ''docs'' ''k'')], Inr ?idx)"
    by (simp add: search_index_def ok_response_def search_body_def document_def key_eq_def
        example_args_def)
  have 2: "load_csv_from_blob ?w (args_connection_string example_args)
             (args_container_name example_args) (args_file_name example_args) = Inr ?csv"
    by (simp add: load_csv_from_blob_def id_content_frame_def row_get_def key_eq_def)
  have 3: "\<forall>k \<in> set (dict_keys ?idx). dict_contains ?csv k"
    by (simp add: dict_keys_def dict_contains_def key_eq_def)
  show ?thesis
    using identical_snapshots_no_delete [OF 1 2 3] by simp
qed

section \<open>Building the snapshots\<close>

lemma dict_get_set:
  "dict_get (dict_set d k v) k2 = (if key_eq k k2 then Some v else dict_get d k2)"
  by (induction d) (auto simp: key_eq_def)

lemma dict_keys_set:
  "map key_norm (dict_keys (dict_set d k v)) =
     (if dict_contains d k then map key_norm (dict_keys d)
      else map key_norm (dict_keys d) @ [key_norm k])"
  by (induction d) (auto simp: dict_keys_def dict_contains_def split: if_splits)

lemma dict_contains_norm:
  "dict_contains d k \<longleftrightarrow> key_norm k \<in> set (map key_norm (dict_keys d))"
  by (induction d) (auto simp: dict_contains_def dict_keys_def key_eq_def)

lemma single_entry_set:
  "single_entry_per_id d \<Longrightarrow> single_entry_per_id (dict_set d k v)"
  by (simp add: single_entry_per_id_def dict_keys_set dict_contains_norm)

lemma index_comprehension_wf:
  "list_all well_formed_doc docs \<Longrightarrow>
   \<exists>snap. index_comprehension docs acc = Inr snap
     \<and> (single_entry_per_id acc \<longrightarrow> single_entry_per_id snap)
     \<and> (\<forall>k. dict_get snap k =
          (case last_content (map doc_pair docs) k of Some w \<Rightarrow> Some w | None \<Rightarrow> dict_get acc k))"
proof (induction docs arbitrary: acc)
  case Nil
  then show ?case by simp
next
  case (Cons doc docs)
  from Cons.prems have wf: "well_formed_doc doc" and rest: "list_all well_formed_doc docs"
    by simp_all
  from wf obtain i c where ic: "getitem doc ''id'' = Inr i" "getitem doc ''content'' = Inr c" "hashable i"
    unfolding well_formed_doc_def by (cases "getitem doc ''id''"; cases "getitem doc ''content''") auto
  from Cons.IH [OF rest, of "dict_set acc i c"] obtain snap where
    s: "index_comprehension docs (dict_set acc i c) = Inr snap"
    "single_entry_per_id (dict_set acc i c) \<longrightarrow> single_entry_per_id snap"
    "\<forall>k. dict_get snap k =
          (case last_content (map doc_pair docs) k of Some w \<Rightarrow> Some w | None \<Rightarrow> dict_get (dict_set acc i c) k)"
    by blast
  have "index_comprehension (doc # docs) acc = Inr snap"
    by (simp add: ic s(1))
  moreover have "single_entry_per_id acc \<longrightarrow> single_entry_per_id snap"
    using s(2) single_entry_set [of acc i c] by blast
  moreover have "dict_get snap k =
          (case last_content (map doc_pair (doc # docs)) k of Some w \<Rightarrow> Some w | None \<Rightarrow> dict_get acc k)" for k
  proof -
    have p: "doc_pair doc = (i, c)"
      by (simp add: doc_pair_def ic)
    have g: "dict_get snap k =
          (case last_content (map doc_pair docs) k of Some w \<Rightarrow> Some w | None \<Rightarrow> dict_get (dict_set acc i c) k)"
      using s(3) by blast
    show ?thesis
      by (cases "last_content (map doc_pair docs) k") (simp_all add: g p dict_get_set)
  qed
  ultimately show ?case by blast
qed

lemma csv_comprehension_ok:
  "list_all (row_ok cols) rs \<Longrightarrow>
   \<exists>snap. csv_comprehension cols rs acc = Inr snap
     \<and> (single_entry_per_id acc \<longrightarrow> single_entry_per_id snap)
     \<and> (\<forall>k. dict_get snap k =
          (case last_content (map (row_pair cols) rs) k of Some w \<Rightarrow> Some w | None \<Rightarrow> dict_get acc k))"
proof (induction rs arbitrary: acc)
  case Nil
  then show ?case by simp
next
  case (Cons row rs)
  from Cons.prems have wf: "row_ok cols row" and rest: "list_all (row_ok cols) rs"
    by simp_all
  from wf obtain i c where ic: "row_get cols row ''id'' = Inr i" "row_get cols row ''content'' = Inr c"
    unfolding row_ok_def by (cases "row_get cols row ''id''"; cases "row_get cols row ''content''") auto
  let ?k = "JStr (format_cell i)"
  from Cons.IH [OF rest, of "dict_set acc ?k c"] obtain snap where
    s: "csv_comprehension cols rs (dict_set acc ?k c) = Inr snap"
    "single_entry_per_id (dict_set acc ?k c) \<longrightarrow> single_entry_per_id snap"
    "\<forall>k. dict_get snap k =
          (case last_content (map (row_pair cols) rs) k of Some w \<Rightarrow> Some w | None \<Rightarrow> dict_get (dict_set acc ?k c) k)"
    by blast
  have "csv_comprehension cols (row # rs) acc = Inr snap"
    by (simp add: ic s(1))
  moreover have "single_entry_per_id acc \<longrightarrow> single_entry_per_id snap"
    using s(2) single_entry_set [of acc ?k c] by blast
  moreover have "dict_get snap k =
          (case last_content (map (row_pair cols) (row # rs)) k of Some w \<Rightarrow> Some w | None \<Rightarrow> dict_get acc k)" for k
  proof -
    have p: "row_pair cols row = (?k, c)"
      by (simp add: row_pair_def ic)
    have g: "dict_get snap k =
          (case last_content (map (row_pair cols) rs) k of Some w \<Rightarrow> Some w | None \<Rightarrow> dict_get (dict_set acc ?k c) k)"
      using s(3) by blast
    show ?thesis
      by (cases "last_content (map (row_pair cols) rs) k") (simp_all add: g p dict_get_set)
  qed
  ultimately show ?case by blast
qed

lemma single_entry_empty [simp]: "single_entry_per_id []"
  by (simp add: single_entry_per_id_def dict_keys_def)

lemma search_index_200:
  assumes "requests_post world (search_request b i k) = Inr response"
    and "status_code response = 200"
    and "body_json response = Some body"
  shows "search_index world b i k =
     ([Post (search_request b i k)],
      case getitem body ''value'' of
        Inl e \<Rightarrow> Inl e
      | Inr docs_value \<Rightarrow>
          (case iter_json docs_value of
             Inl e \<Rightarrow> Inl e
           | Inr docs \<Rightarrow> index_comprehension docs []))"
  using assms by (simp add: search_index_def Let_def)

lemma ok_response_sel [simp]:
  "status_code (ok_response j) = 200" "body_json (ok_response j) = Some j"
  by (simp_all add: ok_response_def)

lemma id_content_frame_sel [simp]:
  "columns (id_content_frame rs) = [''id'', ''content'']" "rows (id_content_frame rs) = rs"
  by (simp_all add: id_content_frame_def)

lemma search_body_value [simp]: "getitem (search_body docs) ''value'' = Inr (JArr docs)"
  by (simp add: search_body_def)

lemma document_fields [simp]:
  "getitem (document i c) ''id'' = Inr i" "getitem (document i c) ''content'' = Inr c"
  by (simp_all add: document_def)

lemma key_eq_JStr [simp]: "key_eq k' (JStr s) \<longleftrightarrow> k' = JStr s"
  by (cases k') (simp_all add: key_eq_def)

lemma dict_contains_JStr: "dict_contains d (JStr s) \<longleftrightarrow> JStr s \<in> set (dict_keys d)"
  by (auto simp: dict_contains_iff)

lemma dict_keys_set_JStr:
  "set (dict_keys (dict_set d (JStr s) v)) = insert (JStr s) (set (dict_keys d))"
proof (induction d)
  case Nil
  then show ?case by (simp add: dict_keys_def)
next
  case (Cons p d)
  obtain k' v' where p: "p = (k', v')" by (cases p)
  from Cons show ?case
    by (cases "k' = JStr s") (auto simp: p dict_keys_def)
qed

lemma csv_comprehension_rows_ok:
  "csv_comprehension cols rs acc = Inr snap \<Longrightarrow> list_all (row_ok cols) rs"
  by (induction rs arbitrary: acc) (auto simp: row_ok_def split: sum.splits)

lemma csv_comprehension_keys:
  "csv_comprehension cols rs acc = Inr snap \<Longrightarrow>
   set (dict_keys snap) =
     set (dict_keys acc) \<union>
     {JStr (format_cell i) | i row. row \<in> set rs \<and> row_get cols row ''id'' = Inr i}"
proof (induction rs arbitrary: acc)
  case Nil
  then show ?case by simp
next
  case (Cons row rs)
  from Cons.prems obtain i c where ic: "row_get cols row ''id'' = Inr i"
      "row_get cols row ''content'' = Inr c"
    and r: "csv_comprehension cols rs (dict_set acc (JStr (format_cell i)) c) = Inr snap"
    by (auto split: sum.splits)
  from Cons.IH [OF r] have "set (dict_keys snap) =
     insert (JStr (format_cell i)) (set (dict_keys acc)) \<union>
     {JStr (format_cell i) | i row. row \<in> set rs \<and> row_get cols row ''id'' = Inr i}"
    by (simp add: dict_keys_set_JStr)
  also have "\<dots> = set (dict_keys acc) \<union>
     {JStr (format_cell i) | i r. r \<in> set (row # rs) \<and> row_get cols r ''id'' = Inr i}"
    using ic(1) by auto
  finally show ?case .
qed

text \<open>
  Claim C8. Duplicate ids raise nothing. When the search is answered with status 200 and
  a body whose \<open>value\<close> is a list of well-formed documents (duplicates or not),
  \<open>search_index\<close> returns a snapshot; when every row of the frame has an \<open>id\<close> and a
  \<open>content\<close> cell, \<open>load_csv_from_blob\<close> returns a snapshot. In both, no two entries have
  the same key, and the content under a key is the content of the last document (row)
  with that id.
\<close>

theorem duplicate_ids_overwrite:
  "(requests_post world (search_request b i k) = Inr response \<and> status_code response = 200
      \<and> body_json response = Some body \<and> getitem body ''value'' = Inr (JArr docs)
      \<and> list_all well_formed_doc docs
    \<longrightarrow> (\<exists>snap. search_index world b i k = ([Post (search_request b i k)], Inr snap)
          \<and> single_entry_per_id snap
          \<and> (\<forall>key. dict_get snap key = last_content (map doc_pair docs) key)))
   \<and> (read_blob_csv world c n f = Inr df \<and> list_all (row_ok (columns df)) (rows df)
    \<longrightarrow> (\<exists>snap. load_csv_from_blob world c n f = Inr snap
          \<and> single_entry_per_id snap
          \<and> (\<forall>key. dict_get snap key = last_content (map (row_pair (columns df)) (rows df)) key)))"
proof (intro conjI impI)
  assume a: "requests_post world (search_request b i k) = Inr response \<and> status_code response = 200
      \<and> body_json response = Some body \<and> getitem body ''value'' = Inr (JArr docs)
      \<and> list_all well_formed_doc docs"
  then have s: "search_index world b i k = ([Post (search_request b i k)], index_comprehension docs [])"
    using search_index_200 [of world b i k response body] by simp
  from a index_comprehension_wf [of docs "[]"] obtain snap where
    "index_comprehension docs [] = Inr snap" "single_entry_per_id snap"
    "\<forall>key. dict_get snap key = (case last_content (map doc_pair docs) key of Some w \<Rightarrow> Some w | None \<Rightarrow> dict_get [] key)"
    by auto
  then show "\<exists>snap. search_index world b i k = ([Post (search_request b i k)], Inr snap)
          \<and> single_entry_per_id snap
          \<and> (\<forall>key. dict_get snap key = last_content (map doc_pair docs) key)"
    using s by (simp split: option.split)
next
  assume a: "read_blob_csv world c n f = Inr df \<and> list_all (row_ok (columns df)) (rows df)"
  then have s: "load_csv_from_blob world c n f = csv_comprehension (columns df) (rows df) []"
    by (simp add: load_csv_from_blob_def)
  from a csv_comprehension_ok [of "columns df" "rows df" "[]"] obtain snap where
    "csv_comprehension (columns df) (rows df) [] = Inr snap" "single_entry_per_id snap"
    "\<forall>key. dict_get snap key = (case last_content (map (row_pair (columns df)) (rows df)) key of Some w \<Rightarrow> Some w | None \<Rightarrow> dict_get [] key)"
    by auto
  then show "\<exists>snap. load_csv_from_blob world c n f = Inr snap
          \<and> single_entry_per_id snap
          \<and> (\<forall>key. dict_get snap key = last_content (map (row_pair (columns df)) (rows df)) key)"
    using s by (simp split: option.split)
qed

text \<open>Documents \<open>A, B, A\<close> give one entry for \<open>A\<close> with the content of the second
  \<open>A\<close>; two rows with id 5 give one entry \<open>"5"\<close> with the content of the second row.\<close>

theorem duplicate_ids_example:
  "(\<exists>snap. search_index
       (fixed_world
          (Inr (ok_response (search_body
             [document (JStr ''A'') (JStr ''x''), document (JStr ''B'') (JStr ''y''),
              document (JStr ''A'') (JStr ''z'')])))
          (Inr (id_content_frame [[CInt 5, CStr ''x''], [CInt 5, CStr ''y'']]))
          (Inl (External ''unused'')))
       ''u'' ''docs'' ''k''
       = ([Post (search_request ''u'' ''docs'' ''k'')], Inr snap)
     \<and> single_entry_per_id snap
     \<and> dict_get snap (JStr ''A'') = Some (JStr ''z'')
     \<and> dict_get snap (JStr ''B'') = Some (JStr ''y''))
   \<and> (\<exists>snap. load_csv_from_blob
       (fixed_world
          (Inr (ok_response (search_body
             [document (JStr ''A'') (JStr ''x''), document (JStr ''B'') (JStr ''y''),
              document (JStr ''A'') (JStr ''z'')])))
          (Inr (id_content_frame [[CInt 5, CStr ''x''], [CInt 5, CStr ''y'']]))
          (Inl (External ''unused'')))
       ''conn'' ''box'' ''ref.csv'' = Inr snap
     \<and> single_entry_per_id snap
     \<and> dict_get snap (JStr ''5'') = Some (CStr ''y''))"
proof -
  let ?docs = "[document (JStr ''A'') (JStr ''x''), document (JStr ''B'') (JStr ''y''),
              document (JStr ''A'') (JStr ''z'')]"
  let ?rs = "[[CInt 5, CStr ''x''], [CInt 5, CStr ''y'']]"
  let ?w = "fixed_world (Inr (ok_response (search_body ?docs))) (Inr (id_content_frame ?rs))
              (Inl (External ''unused''))"
  have d: "list_all well_formed_doc ?docs"
    by (simp add: well_formed_doc_def)
  have r: "list_all (row_ok (columns (id_content_frame ?rs))) (rows (id_content_frame ?rs))"
    by (simp add: row_ok_def row_get_def)
  have ld: "last_content (map doc_pair ?docs) (JStr ''A'') = Some (JStr ''z'')"
    "last_content (map doc_pair ?docs) (JStr ''B'') = Some (JStr ''y'')"
    by (simp_all add: doc_pair_def key_eq_def)
  have lr: "last_content (map (row_pair (columns (id_content_frame ?rs))) (rows (id_content_frame ?rs)))
              (JStr ''5'') = Some (CStr ''y'')"
    by (simp add: row_pair_def row_get_def key_eq_def str_int_def digit_char_def)
  from duplicate_ids_overwrite [of ?w "''u''" "''docs''" "''k''" "ok_response (search_body ?docs)"
      "search_body ?docs" ?docs "''conn''" "''box''" "''ref.csv''" "id_content_frame ?rs"] d r
  have 1: "\<exists>snap. search_index ?w ''u'' ''docs'' ''k'' = ([Post (search_request ''u'' ''docs'' ''k'')], Inr snap)
          \<and> single_entry_per_id snap
          \<and> (\<forall>key. dict_get snap key = last_content (map doc_pair ?docs) key)"
    and 2: "\<exists>snap. load_csv_from_blob ?w ''conn'' ''box'' ''ref.csv'' = Inr snap
          \<and> single_entry_per_id snap
          \<and> (\<forall>key. dict_get snap key =
                last_content (map (row_pair (columns (id_content_frame ?rs))) (rows (id_content_frame ?rs))) key)"
    by simp_all
  from 1 ld have "\<exists>snap. search_index ?w ''u'' ''docs'' ''k'' = ([Post (search_request ''u'' ''docs'' ''k'')], Inr snap)
     \<and> single_entry_per_id snap
     \<and> dict_get snap (JStr ''A'') = Some (JStr ''z'')
     \<and> dict_get snap (JStr ''B'') = Some (JStr ''y'')"
    by metis
  moreover from 2 lr have "\<exists>snap. load_csv_from_blob ?w ''conn'' ''box'' ''ref.csv'' = Inr snap
     \<and> single_entry_per_id snap \<and> dict_get snap (JStr ''5'') = Some (CStr ''y'')"
    by metis
  ultimately show ?thesis by blast
qed

section \<open>The delete stage\<close>

lemma slice30_sliceable: "sliceable c \<Longrightarrow> slice30 v c = Inr (preview_of c)"
  by (cases c) simp_all

lemma slice30_not_subscriptable: "not_subscriptable c \<Longrightarrow> slice30 v c = Inl TypeError"
  by (cases c) simp_all

lemma log_candidates_append:
  "list_all (loggable index_data) pre \<Longrightarrow>
   log_candidates v index_data (pre @ rest) =
     (map (candidate_line index_data) pre @ fst (log_candidates v index_data rest),
      snd (log_candidates v index_data rest))"
  by (induction pre)
     (simp_all add: loggable_def slice30_sliceable candidate_line_def split: prod.splits)

lemma log_candidates_ok:
  "list_all (loggable index_data) ids \<Longrightarrow>
   log_candidates v index_data ids = (map (candidate_line index_data) ids, Inr ())"
  using log_candidates_append [of index_data ids v "[]"] by simp

lemma log_candidates_no_delete: "delete_posts (fst (log_candidates v index_data ids)) = []"
  by (induction ids)
     (auto simp: delete_posts_def split: sum.splits prod.splits)

lemma delete_posts_append [simp]: "delete_posts (xs @ ys) = delete_posts xs @ delete_posts ys"
  by (simp add: delete_posts_def)

lemma delete_posts_Cons_Print [simp]: "delete_posts (Print ps # xs) = delete_posts xs"
  by (simp add: delete_posts_def)

lemma delete_posts_Nil [simp]: "delete_posts [] = []"
  by (simp add: delete_posts_def)

lemma delete_posts_Cons_delete [simp]:
  "delete_posts (Post (delete_request b i k ids) # xs) = Post (delete_request b i k ids) # delete_posts xs"
  by (simp add: delete_posts_def)

lemma search_request_not_deleted:
  "delete_posts (Post (search_request b i k) # xs) = delete_posts xs"
  by (simp add: delete_posts_def)

lemma delete_posts_lines [simp]: "delete_posts (map (candidate_line index_data) ids) = []"
  by (induction ids) (simp_all add: candidate_line_def)

lemma delete_documents_logged:
  assumes "list_all (loggable index_data) ids"
  shows "delete_documents_from_index world b i k ids index_data =
     (case requests_post world (delete_request b i k ids) of
        Inl e \<Rightarrow>
          (deleting_header # map (candidate_line index_data) ids @ [Post (delete_request b i k ids)],
           Inl e)
      | Inr response \<Rightarrow>
          (deleting_header # map (candidate_line index_data) ids @
             [Post (delete_request b i k ids),
              if status_code response = 200 then
                Print [Lit ''Successfully deleted '', Fmt (JNum (int (length ids))),
                       Lit '' documents.'']
              else
                Print [Lit ''Error during deletion: '', Fmt (JNum (status_code response)),
                       Lit '', '', Fmt (JStr (body_text response))]],
           Inr ()))"
  by (simp add: delete_documents_from_index_def log_candidates_ok [OF assms] Let_def
      deleting_header_def split: sum.splits)

lemma delete_documents_one_post:
  assumes "list_all (loggable index_data) ids"
  shows "delete_posts (fst (delete_documents_from_index world b i k ids index_data)) =
     [Post (delete_request b i k ids)]"
  by (simp add: delete_documents_logged [OF assms] deleting_header_def split: sum.splits)

lemma dict_set_keys_hashable:
  "list_all hashable (dict_keys d) \<Longrightarrow> hashable k \<Longrightarrow> list_all hashable (dict_keys (dict_set d k v))"
  by (induction d) (auto simp: dict_keys_def)

lemma index_comprehension_hashable:
  "index_comprehension docs acc = Inr snap \<Longrightarrow> list_all hashable (dict_keys acc) \<Longrightarrow>
   list_all hashable (dict_keys snap)"
proof (induction docs arbitrary: acc)
  case Nil
  then show ?case by simp
next
  case (Cons doc docs)
  from Cons.prems(1) obtain k v where kv: "hashable k"
    and r: "index_comprehension docs (dict_set acc k v) = Inr snap"
    by (auto split: sum.splits if_splits)
  show ?case
    by (rule Cons.IH [OF r]) (rule dict_set_keys_hashable [OF Cons.prems(2) kv])
qed

lemma search_index_hashable:
  assumes "search_index world b i k = (evs, Inr index_data)"
  shows "list_all hashable (dict_keys index_data)"
proof -
  have "index_data = [] \<or> (\<exists>docs. index_comprehension docs [] = Inr index_data)"
    using assms
    by (auto simp: search_index_def Let_def split: sum.splits option.splits if_splits)
  then show ?thesis
    using index_comprehension_hashable [of _ "[]" index_data]
    by (auto simp: dict_keys_def)
qed

lemma missing_ids_subset: "set (missing_ids index_data csv_data) \<subseteq> set (dict_keys index_data)"
  by (auto simp: missing_ids_filter)

lemma main_unfold:
  assumes "search_index world (service_url a) (args_index_name a) (args_api_key a)
             = (evs, Inr index_data)"
    and "load_csv_from_blob world (args_connection_string a) (args_container_name a)
             (args_file_name a) = Inr csv_data"
    and "missing_ids index_data csv_data \<noteq> []"
  shows "main world a =
     (evs @ fst (delete_documents_from_index world (service_url a) (args_index_name a)
                   (args_api_key a) (missing_ids index_data csv_data) index_data),
      snd (delete_documents_from_index world (service_url a) (args_index_name a)
                   (args_api_key a) (missing_ids index_data csv_data) index_data))"
  using assms by (simp add: main_def Let_def split: prod.splits)

lemma example_args_sel [simp]:
  "args_index_name example_args = ''docs''" "args_api_key example_args = ''k''"
  "args_connection_string example_args = ''conn''" "args_container_name example_args = ''box''"
  "args_file_name example_args = ''ref.csv''" "args_search_service_name example_args = ''svc''"
  by (simp_all add: example_args_def)

lemma search_index_ok_docs:
  "search_index (fixed_world (Inr (ok_response (search_body docs))) cr dr) b i k =
     ([Post (search_request b i k)], index_comprehension docs [])"
  by (simp add: search_index_def Let_def)

lemma load_csv_fixed:
  "load_csv_from_blob (fixed_world sr (Inr df) dr) c n f = csv_comprehension (columns df) (rows df) []"
  by (simp add: load_csv_from_blob_def)

lemma error_response_sel [simp]:
  "status_code (error_response code msg) = code" "body_text (error_response code msg) = msg"
  by (simp_all add: error_response_def)

lemma frame_without_id_sel [simp]:
  "columns (frame_without_id rs) = [''name'', ''content'']" "rows (frame_without_id rs) = rs"
  by (simp_all add: frame_without_id_def)




section \<open>The content preview\<close>




section \<open>Failures of the loader\<close>

lemma row_get_no_column: "name \<notin> set cols \<Longrightarrow> row_get cols row name = Inl KeyError"
proof -
  assume "name \<notin> set cols"
  then have "name \<notin> fst ` set (zip cols row)"
    by (auto dest: set_zip_leftD)
  then have "map_of (zip cols row) name = None"
    by (simp add: map_of_eq_None_iff)
  then show ?thesis
    by (simp add: row_get_def)
qed

lemma main_load_fails:
  assumes "load_csv_from_blob world (args_connection_string a) (args_container_name a)
             (args_file_name a) = Inl e"
  shows "main world a =
     (fst (search_index world (service_url a) (args_index_name a) (args_api_key a)),
      case snd (search_index world (service_url a) (args_index_name a) (args_api_key a)) of
        Inl e' \<Rightarrow> Inl e'
      | Inr index_data \<Rightarrow> Inl e)"
  using assms by (simp add: main_def Let_def split: prod.splits sum.splits)

text \<open>
  Claim C3, as amended. If the download or the parse raises, or the frame has no \<open>id\<close>
  column and at least one row, then \<open>load_csv_from_blob\<close> raises (the library's exception,
  or KeyError), the run ends with an exception (that of the search if the search raised,
  else that of the loader), and no delete request is sent.
\<close>

theorem loader_failure_is_fatal_before_delete:
  assumes "(\<exists>e. read_blob_csv world (args_connection_string a) (args_container_name a)
                 (args_file_name a) = Inl e)
         \<or> (\<exists>df. read_blob_csv world (args_connection_string a) (args_container_name a)
                 (args_file_name a) = Inr df
               \<and> ''id'' \<notin> set (columns df) \<and> rows df \<noteq> [])"
  shows "\<exists>e. load_csv_from_blob world (args_connection_string a) (args_container_name a)
               (args_file_name a) = Inl e
           \<and> (read_blob_csv world (args_connection_string a) (args_container_name a)
                 (args_file_name a) = Inl e \<or> e = KeyError)
           \<and> (\<exists>e'. snd (main world a) = Inl e'
                 \<and> (snd (search_index world (service_url a) (args_index_name a) (args_api_key a))
                        = Inl e' \<or> e' = e))
           \<and> delete_posts (fst (main world a)) = []"
proof -
  let ?read = "read_blob_csv world (args_connection_string a) (args_container_name a)
                 (args_file_name a)"
  let ?load = "load_csv_from_blob world (args_connection_string a) (args_container_name a)
                 (args_file_name a)"
  let ?search = "search_index world (service_url a) (args_index_name a) (args_api_key a)"
  from assms obtain e where e: "?load = Inl e" "?read = Inl e \<or> e = KeyError"
  proof
    assume "\<exists>e. ?read = Inl e"
    then obtain e where "?read = Inl e" by blast
    then have "?load = Inl e" by (simp add: load_csv_from_blob_def)
    with \<open>?read = Inl e\<close> show ?thesis using that by blast
  next
    assume "\<exists>df. ?read = Inr df \<and> ''id'' \<notin> set (columns df) \<and> rows df \<noteq> []"
    then obtain df where df: "?read = Inr df" "''id'' \<notin> set (columns df)" "rows df \<noteq> []"
      by blast
    from df(3) obtain row rest where r: "rows df = row # rest"
      by (cases "rows df") auto
    have "?load = Inl KeyError"
      by (simp add: load_csv_from_blob_def df(1) r row_get_no_column [OF df(2)])
    then show ?thesis using that by blast
  qed
  note m = main_load_fails [OF e(1)]
  have "\<exists>e'. snd (main world a) = Inl e' \<and> (snd ?search = Inl e' \<or> e' = e)"
    by (cases "snd ?search") (simp_all add: m)
  moreover have "delete_posts (fst (main world a)) = []"
    by (simp add: m search_index_no_delete)
  ultimately show ?thesis
    using e by blast
qed

text \<open>A CSV with the header \<open>name,content\<close> and one row: the run ends with KeyError after
  the search request.\<close>

theorem csv_without_id_example:
  "main (fixed_world (Inr (ok_response (search_body [document (JStr ''A'') (JStr ''x'')])))
           (Inr (frame_without_id [[CStr ''A'', CStr ''x'']])) (Inr (ok_response JNull)))
        example_args
     = ([Post (search_request (service_url example_args) ''docs'' ''k'')], Inl KeyError)"
proof -
  let ?df = "frame_without_id [[CStr ''A'', CStr ''x'']]"
  let ?w = "fixed_world (Inr (ok_response (search_body [document (JStr ''A'') (JStr ''x'')])))
           (Inr ?df) (Inr (ok_response JNull))"
  have s: "search_index ?w (service_url example_args) (args_index_name example_args)
             (args_api_key example_args)
           = ([Post (search_request (service_url example_args) ''docs'' ''k'')],
              Inr [(JStr ''A'', JStr ''x'')])"
    by (simp add: search_index_ok_docs)
  have "(\<exists>e. read_blob_csv ?w (args_connection_string example_args)
                 (args_container_name example_args) (args_file_name example_args) = Inl e)
         \<or> (\<exists>df. read_blob_csv ?w (args_connection_string example_args)
                 (args_container_name example_args) (args_file_name example_args) = Inr df
               \<and> ''id'' \<notin> set (columns df) \<and> rows df \<noteq> [])"
    by simp
  from loader_failure_is_fatal_before_delete [OF this] obtain e e' where
    e: "read_blob_csv ?w (args_connection_string example_args)
          (args_container_name example_args) (args_file_name example_args) = Inl e \<or> e = KeyError"
    and e': "snd (main ?w example_args) = Inl e'"
      "snd (search_index ?w (service_url example_args) (args_index_name example_args)
             (args_api_key example_args)) = Inl e' \<or> e' = e"
    by blast
  from e have "e = KeyError" by simp
  with e'(2) have "e' = KeyError" by (simp add: search_index_ok_docs)
  with e'(1) have r: "snd (main ?w example_args) = Inl KeyError" by simp
  have "fst (main ?w example_args) = [Post (search_request (service_url example_args) ''docs'' ''k'')]"
    by (simp add: main_def search_index_ok_docs load_csv_fixed row_get_def)
  with r show ?thesis
    by (simp add: prod_eq_iff)
qed

text \<open>The claim fails for a CSV without an \<open>id\<close> column that has no rows: the
  comprehension has nothing to subscript, the reference snapshot is empty, and every
  document of the index is deleted.\<close>

theorem header_only_csv_without_id_deletes:
  "''id'' \<notin> set (columns (frame_without_id []))
   \<and> main (fixed_world (Inr (ok_response (search_body [document (JStr ''A'') (JStr ''x'')])))
           (Inr (frame_without_id [])) (Inr (ok_response JNull)))
        example_args
     = ([Post (search_request (service_url example_args) ''docs'' ''k''),
         Print [Lit ''Deleting the following documents:''],
         Print [Lit ''ID: '', Fmt (JStr ''A''), Lit '', '', Fmt (JStr ''x''), Lit ''...''],
         Post (delete_request (service_url example_args) ''docs'' ''k'' [JStr ''A'']),
         Print [Lit ''Successfully deleted '', Fmt (JNum 1), Lit '' documents.'']],
        Inr ())"
  by (simp add: main_def search_index_ok_docs load_csv_fixed dict_contains_def
      delete_documents_from_index_def content_of_def Let_def)

section \<open>HTTP errors\<close>

lemma search_index_raises:
  "requests_post world (search_request b i k) = Inl e \<Longrightarrow>
   search_index world b i k = ([Post (search_request b i k)], Inl e)"
  by (simp add: search_index_def Let_def)




section \<open>A 200 response with a malformed body\<close>

lemma index_comprehension_prefix:
  "list_all well_formed_doc good \<Longrightarrow>
   \<exists>acc'. index_comprehension (good @ r) acc = index_comprehension r acc'"
proof (induction good arbitrary: acc)
  case Nil
  then show ?case by auto
next
  case (Cons doc good)
  from Cons.prems have wf: "well_formed_doc doc" and rest: "list_all well_formed_doc good"
    by simp_all
  from wf obtain i c where ic: "getitem doc ''id'' = Inr i" "getitem doc ''content'' = Inr c"
      "hashable i"
    unfolding well_formed_doc_def
    by (cases "getitem doc ''id''"; cases "getitem doc ''content''") auto
  from Cons.IH [OF rest, of "dict_set acc i c"] show ?case
    by (simp add: ic)
qed

lemma index_comprehension_bad:
  "\<not> list_all well_formed_doc docs \<Longrightarrow> \<exists>e. index_comprehension docs acc = Inl e"
proof (induction docs arbitrary: acc)
  case Nil
  then show ?case by simp
next
  case (Cons doc docs)
  show ?case
  proof (cases "well_formed_doc doc")
    case True
    then obtain i c where ic: "getitem doc ''id'' = Inr i" "getitem doc ''content'' = Inr c"
        "hashable i"
      unfolding well_formed_doc_def
      by (cases "getitem doc ''id''"; cases "getitem doc ''content''") auto
    from True Cons.prems have "\<not> list_all well_formed_doc docs"
      by simp
    from Cons.IH [OF this, of "dict_set acc i c"] show ?thesis
      by (simp add: ic)
  next
    case False
    then show ?thesis
      unfolding well_formed_doc_def
      by (cases "getitem doc ''id''"; cases "getitem doc ''content''") auto
  qed
qed

lemma index_comprehension_exn:
  "index_comprehension docs acc = Inl e \<Longrightarrow> e = KeyError \<or> e = TypeError"
proof (induction docs arbitrary: acc)
  case Nil
  then show ?case by simp
next
  case (Cons doc docs)
  have g: "x = KeyError \<or> x = TypeError" if "getitem doc name = Inl x" for name x
    using that by (cases doc) (auto split: option.splits)
  show ?case
  proof (cases "getitem doc ''id''")
    case (Inl x)
    with Cons.prems g [of "''id''" x] show ?thesis by simp
  next
    case i: (Inr i)
    show ?thesis
    proof (cases "getitem doc ''content''")
      case (Inl x)
      with Cons.prems i g [of "''content''" x] show ?thesis by simp
    next
      case (Inr c)
      with Cons.prems i Cons.IH [of "dict_set acc i c"] show ?thesis
        by (cases "hashable i") simp_all
    qed
  qed
qed

lemma lacking_field_raises_KeyError:
  "map_of doc_fields ''id'' = None \<or> map_of doc_fields ''content'' = None \<Longrightarrow>
   index_comprehension (JObj doc_fields # rest) acc = Inl KeyError"
  by (cases "map_of doc_fields ''id''"; cases "map_of doc_fields ''content''") auto




section \<open>Ids of the reference snapshot\<close>




end
